theory Spec2Isabelle
  imports Complex_Main "HOL-Library.Word"
begin

section \<open>COSmon: the polling loop of \<open>COSmon.c\<close>\<close>

text \<open>
  The program polls a carrier-detect (COS) input pin, keys and unkeys Asterisk by shell
  commands on its edges, unkeys after a countdown when the pin stays high, watches a
  shutdown push button and drives a network status pin. The model below follows
  \<open>COSmon.c\<close> statement by statement. What the program does to the outside world is
  recorded as a list of events, in program order; what it reads from the outside world
  (pin levels, the address string, the existence of the control file, the configuration
  values) is given to the model as arguments.
\<close>

subsection \<open>Pin levels, events and configuration\<close>

text \<open>wiringPi's \<open>HIGH\<close> is 1 and \<open>LOW\<close> is 0; a pin level is modelled as a truth value.\<close>

abbreviation (input) HIGH :: bool where "HIGH \<equiv> True"
abbreviation (input) LOW :: bool where "LOW \<equiv> False"

datatype pin_mode = INPUT | OUTPUT

text \<open>
  One constructor per library call with an outside effect. \<open>Stdout\<close> and \<open>Stderr\<close>
  carry the text of the format string without its escape characters and without the
  numbers substituted into it.
\<close>

datatype event =
    Stderr string
  | Stdout string
  | WiringPiSetup
  | PinMode "16 word" pin_mode
  | PullUpDnControl "16 word"
  | DigitalWrite "16 word" bool
  | System string
  | Delay nat

text \<open>The variables of \<open>main\<close> that are set from \<open>/etc/COSmon.conf\<close>, with their C types.\<close>

record config =
  ExtCOSPin :: "16 word"
  networkStatusPin :: "16 word"
  shutdownSwitchPin :: "16 word"
  networkStatusOn :: bool
  shutdownSwitchEnable :: bool
  LoopDelayMs :: "16 word"
  TimeoutMs :: "32 word"
  COStimeoutEnable :: bool
  netCheckDivisor :: "16 word"
  SDswitchActivateCount :: "16 word"

text \<open>The configuration every \<open>iniparser\<close> call returns when the file sets nothing.\<close>

definition default_config :: config where
  "default_config =
     \<lparr> ExtCOSPin = 29, networkStatusPin = 3, shutdownSwitchPin = 7,
       networkStatusOn = False, shutdownSwitchEnable = False,
       LoopDelayMs = 100, TimeoutMs = 150000, COStimeoutEnable = True,
       netCheckDivisor = 20, SDswitchActivateCount = 30 \<rparr>"

definition KeyCmd :: string where
  \<open>KeyCmd = ''asterisk -rx "susb tune menu-support K"''\<close>

definition UnkeyCmd :: string where
  \<open>UnkeyCmd = ''asterisk -rx "susb tune menu-support k"''\<close>

subsection \<open>The timeout count\<close>

text \<open>
  \<open>tempval=(float)TimeoutMs/(float)LoopDelayMs; tempval += 0.5; TimeoutCountCOS=(int)tempval;\<close>
  The arithmetic is single precision. The model gives the value stored only where no
  step of it rounds, so that the quotient taken in the real numbers is the program's:
  \<open>TimeoutMs\<close> is below \<open>2^24\<close> (the conversion to \<open>float\<close> is exact, as it always is for
  the 16-bit \<open>LoopDelayMs\<close>), \<open>LoopDelayMs\<close> is not 0 and divides \<open>TimeoutMs\<close> (the
  quotient is an integer below \<open>2^24\<close>, which the correctly rounded division returns as
  it is), and the quotient is below \<open>2^23\<close> (adding one half needs no more than 24
  bits). There the conversion to \<open>int\<close> truncates to the quotient and the assignment
  to the \<open>uint16_t\<close> keeps its low 16 bits. Everywhere else the result is \<open>None\<close>: the
  value depends on the rounding of binary32, or, for a zero divisor and for a value
  beyond \<open>INT_MAX\<close>, on what the platform makes of a conversion that C leaves undefined.
\<close>

definition TimeoutCountCOS :: "config \<Rightarrow> 16 word option" where
  "TimeoutCountCOS cfg =
     (let a = unat (TimeoutMs cfg); b = unat (LoopDelayMs cfg) in
      if b \<noteq> 0 \<and> a < 2 ^ 24 \<and> b dvd a \<and> a div b < 2 ^ 23
      then (let tempval = real a / real b + 1 / 2 in Some (word_of_int \<lfloor>tempval\<rfloor>))
      else None)"

subsection \<open>The COS edge detector and countdown (lines 216 to 252)\<close>

text \<open>
  The state is the pair of \<open>LastCOSState\<close> and \<open>TimeoutCount\<close>; \<open>cur\<close> is the value
  read into \<open>CurrCOSState\<close>, \<open>tcc\<close> is \<open>TimeoutCountCOS\<close>. \<open>TimeoutCount=-1\<close> on a
  \<open>uint16_t\<close> stores 65535.
\<close>

definition cos_step ::
  "config \<Rightarrow> 16 word \<Rightarrow> bool \<Rightarrow> bool \<times> 16 word \<Rightarrow> event list \<times> (bool \<times> 16 word)" where
  "cos_step cfg tcc cur st =
     (let last = fst st; tc = snd st in
      if last \<noteq> cur then
        (if cur = HIGH then ([System KeyCmd], (cur, tcc))
         else ([System UnkeyCmd], (cur, tc)))
      else if COStimeoutEnable cfg then
        (if 0 < tc \<and> cur = HIGH then ([], (last, tc - 1))
         else if tc = 0 then ([Stdout ''COS Timeout'', System UnkeyCmd], (last, - 1))
         else ([], (last, tc)))
      else ([], (last, tc)))"

text \<open>The detector alone, fed a sequence of samples: the events of each tick, and the state left.\<close>

fun cos_run ::
  "config \<Rightarrow> 16 word \<Rightarrow> bool list \<Rightarrow> bool \<times> 16 word \<Rightarrow> event list list \<times> (bool \<times> 16 word)" where
  "cos_run cfg tcc [] st = ([], st)"
| "cos_run cfg tcc (cur # curs) st =
     (let (ev, st') = cos_step cfg tcc cur st;
          (evs, st'') = cos_run cfg tcc curs st'
      in (ev # evs, st''))"

subsection \<open>The shutdown switch (lines 255 to 271)\<close>

text \<open>
  \<open>sw\<close> is the level read from the shutdown pin, \<open>pc\<close> is \<open>SDswitchPressedCount\<close>.
  The result is the events and the new count, or \<open>None\<close> for the \<open>break\<close>.
  No branch reads \<open>shutdownSwitchEnable\<close>.
\<close>

definition shutdown_events :: "config \<Rightarrow> event list" where
  "shutdown_events cfg =
     [DigitalWrite (networkStatusPin cfg) HIGH,
      Stdout ''Shutting down!'',
      System ''/usr/local/sbin/astdn.sh'',
      Delay 5000,
      System ''/usr/bin/poweroff'']"

definition sd_step :: "config \<Rightarrow> bool \<Rightarrow> 16 word \<Rightarrow> event list \<times> 16 word option" where
  "sd_step cfg sw pc =
     (if sw = LOW then
        (let pc' = pc + 1 in
         if pc' > SDswitchActivateCount cfg then (shutdown_events cfg, None)
         else ([], Some pc'))
      else ([], Some 0))"

subsection \<open>The network light (lines 97 to 116)\<close>

text \<open>
  \<open>IPaddr\<close> is the string \<open>getIPaddress\<close> left in the buffer, \<open>lw\<close> is the static
  \<open>lastWrite\<close>, which only ever holds \<open>LOW\<close> or \<open>HIGH\<close>. The result is the events and the new
  \<open>lastWrite\<close>.
\<close>

definition wifiLightHandler :: "16 word \<Rightarrow> string \<Rightarrow> bool \<Rightarrow> event list \<times> bool" where
  "wifiLightHandler pin IPaddr lw =
     (let IPlen = length IPaddr in
      if IPlen = 0 \<and> lw = HIGH then ([DigitalWrite pin LOW], HIGH)
      else if IPlen \<noteq> 0 \<and> lw = LOW then ([DigitalWrite pin HIGH], LOW)
      else ([], lw))"

text \<open>Successive calls of the handler: the events of each call, and the last \<open>lastWrite\<close>.\<close>

fun wifi_run :: "16 word \<Rightarrow> string list \<Rightarrow> bool \<Rightarrow> event list list \<times> bool" where
  "wifi_run pin [] lw = ([], lw)"
| "wifi_run pin (a # as) lw =
     (let (ev, lw') = wifiLightHandler pin a lw;
          (evs, lw'') = wifi_run pin as lw'
      in (ev # evs, lw''))"

subsection \<open>The loop\<close>

text \<open>What one iteration reads from outside.\<close>

record inputs =
  COSpin :: bool
  SDpin :: bool
  IPaddr :: string

text \<open>The variables that live across iterations.\<close>

record vars =
  LastCOSState :: bool
  TimeoutCount :: "16 word"
  SDswitchPressedCount :: "16 word"
  loopCount :: "32 word"
  lastWrite :: bool

datatype flow = Continue vars | Break | DivideByZero

text \<open>
  One iteration of \<open>for(;;)\<close>. In \<open>(loopCount++ % netCheckDivisor)==0 && networkStatusOn\<close>
  the remainder is computed first, whatever the flag, in \<open>unsigned int\<close>; a zero divisor
  traps.
\<close>

definition loop_body :: "config \<Rightarrow> 16 word \<Rightarrow> inputs \<Rightarrow> vars \<Rightarrow> event list \<times> flow" where
  "loop_body cfg tcc inp v =
     (let (e1, st') = cos_step cfg tcc (COSpin inp) (LastCOSState v, TimeoutCount v) in
      case sd_step cfg (SDpin inp) (SDswitchPressedCount v) of
        (e2, None) \<Rightarrow> (e1 @ e2, Break)
      | (e2, Some pc') \<Rightarrow>
          if netCheckDivisor cfg = 0 then (e1 @ e2, DivideByZero)
          else
            let (e3, lw') =
                  (if loopCount v mod ucast (netCheckDivisor cfg) = 0 \<and> networkStatusOn cfg
                   then wifiLightHandler (networkStatusPin cfg) (IPaddr inp) (lastWrite v)
                   else ([], lastWrite v))
            in (e1 @ e2 @ e3 @ [Delay (unat (LoopDelayMs cfg))],
                Continue \<lparr> LastCOSState = fst st', TimeoutCount = snd st',
                           SDswitchPressedCount = pc', loopCount = loopCount v + 1,
                           lastWrite = lw' \<rparr>))"

datatype status = Running vars | Returned int | Exited int | Trapped

text \<open>
  The loop over the inputs of successive iterations. It has no exit but the \<open>break\<close> of
  the shutdown switch, after which \<open>main\<close> returns \<open>RETVAL_OK\<close>; when the inputs given
  are used up the program is still running.
\<close>

fun loop :: "config \<Rightarrow> 16 word \<Rightarrow> inputs list \<Rightarrow> vars \<Rightarrow> event list \<times> status" where
  "loop cfg tcc [] v = ([], Running v)"
| "loop cfg tcc (inp # inps) v =
     (case loop_body cfg tcc inp v of
        (ev, Continue v') \<Rightarrow> (let (evs, s) = loop cfg tcc inps v' in (ev @ evs, s))
      | (ev, Break) \<Rightarrow> (ev, Returned 0)
      | (ev, DivideByZero) \<Rightarrow> (ev, Trapped))"

subsection \<open>\<open>main\<close>\<close>

definition banner :: "config \<Rightarrow> event list" where
  "banner cfg =
     [Stdout ''COSmon version %s'',
      Stdout ''Config:'',
      Stdout ''COS GPIO number: %u'',
      (if \<not> COStimeoutEnable cfg then Stdout ''COS timeout disabled''
       else Stdout ''COS timeout (ms): %u''),
      Stdout ''COS check loop delay (ms): %u'',
      Stdout ''Shutdown switch: %s'',
      Stdout ''Network connected Indicator: %s'',
      Stdout ''Network status GPIO number: %u'',
      Stdout ''Shutdwon switch GPIO number: %d'',
      Stdout ''Network check divisor: %u'',
      Stdout '''']"

text \<open>Lines 199 to 212: the pins are prepared, the first read of the COS pin, the first unkey.\<close>

definition startup :: "config \<Rightarrow> event list" where
  "startup cfg =
     [WiringPiSetup,
      PinMode (ExtCOSPin cfg) INPUT,
      PinMode (networkStatusPin cfg) OUTPUT,
      DigitalWrite (networkStatusPin cfg) LOW,
      PinMode (shutdownSwitchPin cfg) INPUT,
      PullUpDnControl (shutdownSwitchPin cfg),
      Stdout ''COSmon running'',
      System UnkeyCmd]"

text \<open>
  \<open>ctl\<close> tells whether \<open>access("/var/run/asterisk.ctl", F_OK)\<close> returned 0, \<open>cos0\<close> is
  the level read into \<open>LastCOSState\<close> before the loop, and \<open>pc0\<close> is whatever
  \<open>SDswitchPressedCount\<close> holds when the loop starts: the declaration has no
  initialiser and nothing assigns the variable before the loop. \<open>tcu\<close> is the value
  the program stores in its variable \<open>TimeoutCountCOS\<close> for a configuration where the
  model above does not determine it; the program goes on with that value. The static
  \<open>lastWrite\<close> starts as \<open>LOW\<close>, \<open>loopCount\<close> as 0, \<open>TimeoutCount\<close> as \<open>-1\<close>.
\<close>

definition main ::
  "bool \<Rightarrow> config \<Rightarrow> 16 word \<Rightarrow> bool \<Rightarrow> 16 word \<Rightarrow> inputs list \<Rightarrow> event list \<times> status" where
  "main ctl cfg tcu cos0 pc0 inps =
     (if \<not> ctl then ([Stderr ''Asterisk needs to be running first!  Exiting''], Exited (- 1))
      else
        let tcc = (case TimeoutCountCOS cfg of None \<Rightarrow> tcu | Some c \<Rightarrow> c);
            (evs, s) =
              loop cfg tcc inps
                \<lparr> LastCOSState = cos0, TimeoutCount = - 1, SDswitchPressedCount = pc0,
                  loopCount = 0, lastWrite = LOW \<rparr>
        in (banner cfg @ startup cfg @ evs, s))"

subsection \<open>Inputs and states used in the runs below\<close>

text \<open>
  Two inputs of one iteration with the COS pin low and no address: the shutdown pin read
  low (the button is held, the switch is active low) and read high (released).
\<close>

definition button_held :: inputs where
  "button_held = \<lparr> COSpin = LOW, SDpin = LOW, IPaddr = [] \<rparr>"

definition button_released :: inputs where
  "button_released = \<lparr> COSpin = LOW, SDpin = HIGH, IPaddr = [] \<rparr>"

text \<open>
  The variables as \<open>main\<close> sets them before the loop when the COS pin reads low, for a
  given press count and loop count.
\<close>

definition idle_vars :: "16 word \<Rightarrow> 32 word \<Rightarrow> vars" where
  "idle_vars pc lc =
     \<lparr> LastCOSState = LOW, TimeoutCount = - 1, SDswitchPressedCount = pc,
       loopCount = lc, lastWrite = LOW \<rparr>"

text \<open>The events that are a \<open>digitalWrite\<close>.\<close>

fun is_write :: "event \<Rightarrow> bool" where
  "is_write (DigitalWrite p l) = True"
| "is_write e = False"

text \<open>The two commands that key and unkey Asterisk.\<close>

definition is_key_cmd :: "event \<Rightarrow> bool" where
  "is_key_cmd e = (e = System KeyCmd \<or> e = System UnkeyCmd)"

section \<open>Properties\<close>

subsection \<open>Facts about the COS detector\<close>

lemma KeyCmd_neq_UnkeyCmd: "KeyCmd \<noteq> UnkeyCmd"
  by (simp add: KeyCmd_def UnkeyCmd_def)

lemma tcc_default:
  "LoopDelayMs cfg = 100 \<Longrightarrow> TimeoutMs cfg = 150000 \<Longrightarrow> TimeoutCountCOS cfg = Some 1500"
  by (simp add: TimeoutCountCOS_def)

lemma cos_step_rising: "cos_step cfg tcc HIGH (LOW, tc) = ([System KeyCmd], (HIGH, tcc))"
  by (simp add: cos_step_def)

lemma cos_step_falling: "cos_step cfg tcc LOW (HIGH, tc) = ([System UnkeyCmd], (LOW, tc))"
  by (simp add: cos_step_def)

lemma cos_step_countdown:
  "COStimeoutEnable cfg \<Longrightarrow> tc \<noteq> 0 \<Longrightarrow> cos_step cfg tcc HIGH (HIGH, tc) = ([], (HIGH, tc - 1))"
  by (simp add: cos_step_def word_greater_zero_iff)

lemma cos_step_fire:
  "COStimeoutEnable cfg \<Longrightarrow>
   cos_step cfg tcc l (l, 0) = ([Stdout ''COS Timeout'', System UnkeyCmd], (l, - 1))"
  by (simp add: cos_step_def)

lemma cos_step_idle_low:
  "tc \<noteq> 0 \<Longrightarrow> cos_step cfg tcc LOW (LOW, tc) = ([], (LOW, tc))"
  by (simp add: cos_step_def)

lemma cos_step_tracks_level: "fst (snd (cos_step cfg tcc cur st)) = cur"
  by (auto simp: cos_step_def Let_def)

lemma cos_run_append:
  "cos_run cfg tcc (xs @ ys) st =
     (let (e1, s1) = cos_run cfg tcc xs st; (e2, s2) = cos_run cfg tcc ys s1 in (e1 @ e2, s2))"
  by (induction xs arbitrary: st) (auto simp: Let_def split: prod.splits)

lemma cos_run_countdown:
  "COStimeoutEnable cfg \<Longrightarrow> unat tc = n \<Longrightarrow>
   cos_run cfg tcc (replicate n HIGH) (HIGH, tc) = (replicate n [], (HIGH, 0))"
proof (induction n arbitrary: tc)
  case 0
  then show ?case by (simp add: unat_eq_0)
next
  case (Suc n)
  then have nz: "tc \<noteq> 0" by auto
  have "unat (tc - 1) = n" using Suc.prems(2) nz
    by (simp add: unat_minus_one)
  with Suc show ?case by (simp add: cos_step_countdown nz)
qed

lemma cos_run_idle_low:
  "tc \<noteq> 0 \<Longrightarrow> cos_run cfg tcc (replicate n LOW) (LOW, tc) = (replicate n [], (LOW, tc))"
  by (induction n) (simp_all add: cos_step_idle_low)

lemma cos_run_Cons_fst:
  "fst (cos_run cfg tcc (x # xs) st) =
     fst (cos_step cfg tcc x st) # fst (cos_run cfg tcc xs (snd (cos_step cfg tcc x st)))"
  by (simp add: split_beta)

lemma cos_run_length: "length (fst (cos_run cfg tcc xs st)) = length xs"
  by (induction xs arbitrary: st) (simp_all add: split_beta)

lemma cos_run_take:
  "fst (cos_run cfg tcc (take k xs) st) = take k (fst (cos_run cfg tcc xs st))"
proof (induction xs arbitrary: k st)
  case Nil
  then show ?case by simp
next
  case (Cons x xs)
  then show ?case by (cases k) (simp_all add: split_beta)
qed

lemma cos_run_nth_prefix:
  assumes "t < length xs" "t < length ys" "take (Suc t) xs = take (Suc t) ys"
  shows "fst (cos_run cfg tcc xs st) ! t = fst (cos_run cfg tcc ys st) ! t"
proof -
  have "fst (cos_run cfg tcc xs st) ! t = take (Suc t) (fst (cos_run cfg tcc xs st)) ! t"
    by simp
  also have "\<dots> = fst (cos_run cfg tcc (take (Suc t) xs) st) ! t"
    by (simp only: cos_run_take)
  also have "\<dots> = fst (cos_run cfg tcc (take (Suc t) ys) st) ! t"
    by (simp only: assms(3))
  also have "\<dots> = take (Suc t) (fst (cos_run cfg tcc ys st)) ! t"
    by (simp only: cos_run_take)
  finally show ?thesis by simp
qed

lemma cos_run_held_high:
  assumes en: "COStimeoutEnable cfg"
  shows "cos_run cfg tcc (replicate (unat tcc + 65538) HIGH) (LOW, tc0) =
           ([System KeyCmd] # replicate (unat tcc) [] @
            [[Stdout ''COS Timeout'', System UnkeyCmd]] @ replicate 65535 [] @
            [[Stdout ''COS Timeout'', System UnkeyCmd]], (HIGH, - 1))"
proof -
  have "replicate (unat tcc + 65538) HIGH =
          replicate (1 + (unat tcc + (1 + (65535 + 1)))) HIGH"
    by simp
  also have "\<dots> = replicate 1 HIGH @ replicate (unat tcc) HIGH @ replicate 1 HIGH @
                     replicate 65535 HIGH @ replicate 1 HIGH"
    by (simp only: replicate_add)
  finally have split: "replicate (unat tcc + 65538) HIGH =
      [HIGH] @ replicate (unat tcc) HIGH @ [HIGH] @ replicate 65535 HIGH @ [HIGH]"
    by simp
  have c2: "cos_run cfg tcc (replicate 65535 HIGH) (HIGH, - 1) = (replicate 65535 [], (HIGH, 0))"
    using cos_run_countdown [OF en, of "- 1" 65535 tcc] by (simp add: unsigned_minus_1_eq_mask mask_eq_exp_minus_1)
  show ?thesis
    unfolding split
    by (simp add: cos_run_append cos_step_rising cos_run_countdown [OF en] c2 cos_step_fire [OF en]
         del: replicate_Suc)
qed

lemma COStimeoutEnable_default: "COStimeoutEnable default_config"
  by (simp add: default_config_def)

lemma held_high_trace:
  assumes "COStimeoutEnable cfg"
  shows "cos_run cfg 1500 (replicate 67038 HIGH) (LOW, tc0) =
           ([System KeyCmd] # replicate 1500 [] @
            [[Stdout ''COS Timeout'', System UnkeyCmd]] @ replicate 65535 [] @
            [[Stdout ''COS Timeout'', System UnkeyCmd]], (HIGH, - 1))"
  using cos_run_held_high [OF assms, of 1500 tc0] by simp

lemma held_high_nth:
  assumes en: "COStimeoutEnable cfg" and t: "t < n" "t \<le> 67036"
  shows "fst (cos_run cfg 1500 (replicate n HIGH) (LOW, tc0)) ! t =
           (if t = 0 then [System KeyCmd]
            else if t = 1501 then [Stdout ''COS Timeout'', System UnkeyCmd]
            else [])"
proof -
  have "fst (cos_run cfg 1500 (replicate n HIGH) (LOW, tc0)) ! t =
        fst (cos_run cfg 1500 (replicate 67038 HIGH) (LOW, tc0)) ! t"
    using t by (intro cos_run_nth_prefix) (simp_all add: take_replicate min_def)
  also have "\<dots> = ([System KeyCmd] # replicate 1500 [] @
            [[Stdout ''COS Timeout'', System UnkeyCmd]] @ replicate 65535 [] @
            [[Stdout ''COS Timeout'', System UnkeyCmd]]) ! t"
    by (simp only: held_high_trace [OF en] fst_conv)
  also have "\<dots> = (if t = 0 then [System KeyCmd]
            else if t = 1501 then [Stdout ''COS Timeout'', System UnkeyCmd]
            else [])"
    using t(2) by (auto simp: nth_Cons' nth_append)
  finally show ?thesis .
qed

lemma cos_step_unkey_disabled:
  assumes "\<not> COStimeoutEnable cfg" "System UnkeyCmd \<in> set (fst (cos_step cfg tcc cur st))"
  shows "cur = LOW \<and> fst st = HIGH"
  using assms KeyCmd_neq_UnkeyCmd
  by (auto simp: cos_step_def Let_def split: if_splits)

text \<open>
  A falling edge that arrives when the countdown has just reached 0 leaves it at 0, and the
  next iteration, with the pin low, takes the timeout branch.
\<close>

lemma timeout_after_falling_edge:
  "COStimeoutEnable cfg \<Longrightarrow>
   cos_run cfg 1 [HIGH, HIGH, LOW, LOW] (LOW, - 1) =
     ([[System KeyCmd], [], [System UnkeyCmd], [Stdout ''COS Timeout'', System UnkeyCmd]],
      (LOW, - 1))"
  by (simp add: cos_step_rising cos_step_falling cos_step_countdown cos_step_fire)

text \<open>
  The same with any timeout count: the pin goes high, stays high until the countdown has
  reached 0, and goes low in the very next iteration.
\<close>

lemma cos_run_falling_at_zero:
  assumes en: "COStimeoutEnable cfg"
  shows "cos_run cfg tcc (replicate (Suc (unat tcc)) HIGH @ [LOW, LOW]) (LOW, tc0) =
           ([System KeyCmd] # replicate (unat tcc) [] @
            [[System UnkeyCmd], [Stdout ''COS Timeout'', System UnkeyCmd]], (LOW, - 1))"
  by (simp add: cos_run_append cos_step_rising cos_run_countdown [OF en] cos_step_falling
      cos_step_fire [OF en])

subsection \<open>Facts about the loop\<close>

lemma TimeoutCountCOS_default: "TimeoutCountCOS default_config = Some 1500"
  by (simp add: TimeoutCountCOS_def default_config_def)

lemma loop_Cons_Continue:
  "loop_body cfg tcc inp v = (ev, Continue v') \<Longrightarrow>
   loop cfg tcc (inp # inps) v = (ev @ fst (loop cfg tcc inps v'), snd (loop cfg tcc inps v'))"
  by (simp add: split_beta)

lemma loop_Cons_Break:
  "loop_body cfg tcc inp v = (ev, Break) \<Longrightarrow> loop cfg tcc (inp # inps) v = (ev, Returned 0)"
  by simp

lemma held_step:
  assumes "pc < 30"
  shows "loop_body default_config 1500 button_held (idle_vars pc lc) =
           ([Delay 100], Continue (idle_vars (pc + 1) (lc + 1)))"
proof -
  have "\<not> 30 < pc + 1" using inc_le [OF assms] by (simp add: not_less)
  then show ?thesis
    by (simp add: loop_body_def cos_step_def sd_step_def default_config_def button_held_def
        idle_vars_def)
qed

lemma released_step:
  "loop_body default_config 1500 button_released (idle_vars pc lc) =
     ([Delay 100], Continue (idle_vars 0 (lc + 1)))"
  by (simp add: loop_body_def cos_step_def sd_step_def default_config_def button_released_def
      idle_vars_def)

lemma held_fire:
  "loop_body default_config 1500 button_held (idle_vars 30 lc) =
     (shutdown_events default_config, Break)"
  by (simp add: loop_body_def cos_step_def sd_step_def default_config_def button_held_def
      idle_vars_def)

lemma held_run:
  "unat pc + n \<le> 30 \<Longrightarrow>
   loop default_config 1500 (replicate n button_held @ rest) (idle_vars pc lc) =
     (replicate n (Delay 100) @
        fst (loop default_config 1500 rest (idle_vars (pc + of_nat n) (lc + of_nat n))),
      snd (loop default_config 1500 rest (idle_vars (pc + of_nat n) (lc + of_nat n))))"
proof (induction n arbitrary: pc lc)
  case 0
  then show ?case by simp
next
  case (Suc n)
  from Suc.prems have lt: "pc < 30" by (simp add: word_less_nat_alt)
  from Suc.prems have "unat pc + unat (1 :: 16 word) < 2 ^ LENGTH(16)" by simp
  then have "unat (pc + 1) = unat pc + 1"
    using unat_add_lem [of pc 1] by simp
  with Suc.prems have "unat (pc + 1) + n \<le> 30" by simp
  from Suc.IH [OF this, of "lc + 1"] held_step [OF lt, of lc]
  show ?case by (simp add: loop_Cons_Continue add.assoc del: loop.simps(2))
qed

lemma cos_step_no_write: "filter is_write (fst (cos_step cfg tcc cur st)) = []"
  by (simp add: cos_step_def Let_def)

lemma wifi_all_writes:
  "filter is_write (fst (wifiLightHandler pin a lw)) = fst (wifiLightHandler pin a lw)"
  by (simp add: wifiLightHandler_def)

lemma sd_step_break: "sd_step cfg sw pc = (ev, None) \<Longrightarrow> ev = shutdown_events cfg"
  by (auto simp: sd_step_def Let_def split: if_splits)

lemma sd_step_continue: "sd_step cfg sw pc = (ev, Some pc') \<Longrightarrow> ev = []"
  by (auto simp: sd_step_def Let_def split: if_splits)

lemma loop_body_no_write_when_off:
  assumes "\<not> networkStatusOn cfg" "loop_body cfg tcc inp v = (ev, Continue v')"
  shows "filter is_write ev = []"
proof (cases "sd_step cfg (SDpin inp) (SDswitchPressedCount v)")
  case (Pair e2 r)
  show ?thesis
  proof (cases r)
    case None
    with Pair assms(2) show ?thesis by (simp add: loop_body_def split_beta)
  next
    case (Some pc')
    with Pair have "e2 = []" by (simp add: sd_step_continue)
    with Pair Some assms show ?thesis
      by (auto simp: loop_body_def split_beta cos_step_no_write split: if_splits)
  qed
qed

lemma loop_body_writes_when_on:
  assumes "networkStatusOn cfg" "netCheckDivisor cfg \<noteq> 0"
    "loopCount v mod ucast (netCheckDivisor cfg) = 0"
    "sd_step cfg (SDpin inp) (SDswitchPressedCount v) = (e2, Some pc')"
  shows "filter is_write (fst (loop_body cfg tcc inp v)) =
           fst (wifiLightHandler (networkStatusPin cfg) (IPaddr inp) (lastWrite v))"
proof -
  from assms(4) have "e2 = []" by (rule sd_step_continue)
  with assms show ?thesis
    by (simp add: loop_body_def split_beta cos_step_no_write wifi_all_writes)
qed

text \<open>
  While the loop runs, its COS state and its key and unkey commands are those of the
  detector run on the COS samples alone.
\<close>

lemma wifi_no_key_cmd: "filter is_key_cmd (fst (wifiLightHandler pin a lw)) = []"
  by (simp add: wifiLightHandler_def is_key_cmd_def)

lemma loop_body_Continue_cos:
  assumes "loop_body cfg tcc inp v = (ev, Continue v1)"
  shows "(LastCOSState v1, TimeoutCount v1) =
           snd (cos_step cfg tcc (COSpin inp) (LastCOSState v, TimeoutCount v)) \<and>
         filter is_key_cmd ev =
           filter is_key_cmd (fst (cos_step cfg tcc (COSpin inp) (LastCOSState v, TimeoutCount v)))"
proof (cases "sd_step cfg (SDpin inp) (SDswitchPressedCount v)")
  case (Pair e2 r)
  show ?thesis
  proof (cases r)
    case None
    with Pair assms show ?thesis by (simp add: loop_body_def split_beta)
  next
    case (Some pc')
    with Pair have "e2 = []" by (simp add: sd_step_continue)
    with Pair Some assms show ?thesis
      by (auto simp: loop_body_def split_beta wifi_no_key_cmd is_key_cmd_def split: if_splits)
  qed
qed

lemma loop_Running_Cons:
  assumes "loop cfg tcc (inp # inps) v = (evs, Running v')"
  obtains ev v1 evs1 where "loop_body cfg tcc inp v = (ev, Continue v1)"
    "loop cfg tcc inps v1 = (evs1, Running v')" "evs = ev @ evs1"
  using assms by (auto split: prod.splits flow.splits)

lemma loop_runs_cos_detector:
  assumes "loop cfg tcc inps v = (evs, Running v')"
  shows "(LastCOSState v', TimeoutCount v') =
           snd (cos_run cfg tcc (map COSpin inps) (LastCOSState v, TimeoutCount v)) \<and>
         filter is_key_cmd evs =
           concat (map (filter is_key_cmd)
             (fst (cos_run cfg tcc (map COSpin inps) (LastCOSState v, TimeoutCount v))))"
  using assms
proof (induction inps arbitrary: v evs)
  case Nil
  then show ?case by auto
next
  case (Cons inp inps)
  from Cons.prems obtain ev v1 evs1 where
    b: "loop_body cfg tcc inp v = (ev, Continue v1)" and
    l: "loop cfg tcc inps v1 = (evs1, Running v')" and e: "evs = ev @ evs1"
    by (rule loop_Running_Cons)
  from loop_body_Continue_cos [OF b] Cons.IH [OF l] e
  show ?case by (simp add: split_beta)
qed

text \<open>
  The shutdown switch written as one test, and the pin writes of one iteration and of a
  whole run.
\<close>

lemma sd_step_eq:
  "sd_step cfg sw pc =
     (if sw = LOW \<and> SDswitchActivateCount cfg < pc + 1 then (shutdown_events cfg, None)
      else ([], Some (if sw = LOW then pc + 1 else 0)))"
  by (simp add: sd_step_def Let_def)

lemma shutdown_events_writes:
  "filter is_write (shutdown_events cfg) = [DigitalWrite (networkStatusPin cfg) HIGH]"
  by (simp add: shutdown_events_def)

lemma loop_body_break:
  assumes "SDpin inp = LOW" "SDswitchActivateCount cfg < SDswitchPressedCount v + 1"
  shows "loop_body cfg tcc inp v =
           (fst (cos_step cfg tcc (COSpin inp) (LastCOSState v, TimeoutCount v)) @
            shutdown_events cfg, Break)"
  using assms by (simp add: loop_body_def sd_step_eq split_beta)

lemma loop_body_break_iff:
  "snd (loop_body cfg tcc inp v) = Break \<longleftrightarrow>
     SDpin inp = LOW \<and> SDswitchActivateCount cfg < SDswitchPressedCount v + 1"
  by (simp add: loop_body_def sd_step_eq split_beta Let_def)

lemma loop_body_writes:
  "filter is_write (fst (loop_body cfg tcc inp v)) =
     (if SDpin inp = LOW \<and> SDswitchActivateCount cfg < SDswitchPressedCount v + 1
      then [DigitalWrite (networkStatusPin cfg) HIGH]
      else if netCheckDivisor cfg \<noteq> 0 \<and>
              loopCount v mod ucast (netCheckDivisor cfg) = 0 \<and> networkStatusOn cfg
      then fst (wifiLightHandler (networkStatusPin cfg) (IPaddr inp) (lastWrite v))
      else [])"
  by (simp add: loop_body_def sd_step_eq split_beta Let_def cos_step_no_write wifi_all_writes
      shutdown_events_writes)

lemma loop_Cons_eq:
  "loop cfg tcc (inp # inps) v =
     (case snd (loop_body cfg tcc inp v) of
        Continue v' \<Rightarrow> (fst (loop_body cfg tcc inp v) @ fst (loop cfg tcc inps v'),
                        snd (loop cfg tcc inps v'))
      | Break \<Rightarrow> (fst (loop_body cfg tcc inp v), Returned 0)
      | DivideByZero \<Rightarrow> (fst (loop_body cfg tcc inp v), Trapped))"
  by (simp add: split_beta split: flow.splits)

lemma loop_writes_off:
  assumes "\<not> networkStatusOn cfg"
  shows "filter is_write (fst (loop cfg tcc inps v)) =
           (if snd (loop cfg tcc inps v) = Returned 0
            then [DigitalWrite (networkStatusPin cfg) HIGH] else [])"
proof (induction inps arbitrary: v)
  case Nil
  then show ?case by simp
next
  case (Cons inp inps)
  show ?case
  proof (cases "snd (loop_body cfg tcc inp v)")
    case (Continue v')
    then have "snd (loop_body cfg tcc inp v) \<noteq> Break" by simp
    then have "filter is_write (fst (loop_body cfg tcc inp v)) = []"
      using assms by (simp add: loop_body_writes loop_body_break_iff)
    with Continue Cons.IH [of v'] show ?thesis
      by (simp add: loop_Cons_eq del: loop.simps(2))
  next
    case Break
    then have "filter is_write (fst (loop_body cfg tcc inp v)) =
                 [DigitalWrite (networkStatusPin cfg) HIGH]"
      by (simp add: loop_body_writes loop_body_break_iff)
    with Break show ?thesis by (simp add: loop_Cons_eq del: loop.simps(2))
  next
    case DivideByZero
    then have "snd (loop_body cfg tcc inp v) \<noteq> Break" by simp
    then have "filter is_write (fst (loop_body cfg tcc inp v)) = []"
      using assms by (simp add: loop_body_writes loop_body_break_iff)
    with DivideByZero show ?thesis by (simp add: loop_Cons_eq del: loop.simps(2))
  qed
qed

lemma loop_returned_last_write:
  assumes "snd (loop cfg tcc inps v) = Returned r"
  shows "filter is_write (fst (loop cfg tcc inps v)) \<noteq> [] \<and>
         last (filter is_write (fst (loop cfg tcc inps v))) =
           DigitalWrite (networkStatusPin cfg) HIGH"
  using assms
proof (induction inps arbitrary: v)
  case Nil
  then show ?case by simp
next
  case (Cons inp inps)
  show ?case
  proof (cases "snd (loop_body cfg tcc inp v)")
    case (Continue v')
    with Cons.prems have "snd (loop cfg tcc inps v') = Returned r"
      by (simp add: loop_Cons_eq del: loop.simps(2))
    from Cons.IH [OF this] Continue show ?thesis
      by (simp add: loop_Cons_eq del: loop.simps(2))
  next
    case Break
    then have "filter is_write (fst (loop_body cfg tcc inp v)) =
                 [DigitalWrite (networkStatusPin cfg) HIGH]"
      by (simp add: loop_body_writes loop_body_break_iff)
    with Break show ?thesis by (simp add: loop_Cons_eq del: loop.simps(2))
  next
    case DivideByZero
    with Cons.prems show ?thesis by (simp add: loop_Cons_eq del: loop.simps(2))
  qed
qed

lemma main_running:
  "main True cfg tcu cos0 pc0 inps =
     (banner cfg @ startup cfg @
        fst (loop cfg (case TimeoutCountCOS cfg of None \<Rightarrow> tcu | Some c \<Rightarrow> c) inps
              \<lparr> LastCOSState = cos0, TimeoutCount = - 1, SDswitchPressedCount = pc0,
                loopCount = 0, lastWrite = LOW \<rparr>),
      snd (loop cfg (case TimeoutCountCOS cfg of None \<Rightarrow> tcu | Some c \<Rightarrow> c) inps
              \<lparr> LastCOSState = cos0, TimeoutCount = - 1, SDswitchPressedCount = pc0,
                loopCount = 0, lastWrite = LOW \<rparr>))"
  by (simp add: main_def split_beta Let_def del: loop.simps(2))

lemma startup_writes:
  "filter is_write (banner cfg @ startup cfg) = [DigitalWrite (networkStatusPin cfg) LOW]"
  by (simp add: banner_def startup_def)

text \<open>
  The default configuration with the button released once and then held for 31 iterations.
\<close>

lemma held_31_loop:
  "loop default_config 1500 (button_released # replicate 31 button_held) (idle_vars pc 0) =
     (Delay 100 # replicate 30 (Delay 100) @ shutdown_events default_config, Returned 0)"
proof -
  have "replicate 31 button_held = replicate (30 + 1) button_held"
    by simp
  also have "\<dots> = replicate 30 button_held @ replicate 1 button_held"
    by (simp only: replicate_add)
  finally have r: "replicate 31 button_held = replicate 30 button_held @ [button_held]"
    by simp
  have "loop default_config 1500 (replicate 31 button_held) (idle_vars 0 1) =
          (replicate 30 (Delay 100) @ shutdown_events default_config, Returned 0)"
    unfolding r using held_run [of 0 30 "[button_held]" 1] held_fire [of 31]
    by (simp add: loop_Cons_Break del: loop.simps(2))
  then show ?thesis
    using released_step [of pc 0]
    by (simp add: loop_Cons_Continue del: loop.simps(2) replicate_Suc)
qed

lemma held_31_main:
  "main True default_config tcu LOW pc (button_released # replicate 31 button_held) =
     (banner default_config @ startup default_config @ Delay 100 # replicate 30 (Delay 100) @
      shutdown_events default_config, Returned 0)"
  using held_31_loop [of pc]
  by (simp add: main_running TimeoutCountCOS_default idle_vars_def del: loop.simps(2))

lemma default_pins:
  "networkStatusPin default_config = 3" "SDswitchActivateCount default_config = 30"
  "\<not> networkStatusOn default_config"
  by (simp_all add: default_config_def)

subsection \<open>Facts about the network light\<close>

text \<open>Both branches store back the value \<open>lastWrite\<close> was tested against.\<close>

lemma lastWrite_never_changes: "snd (wifiLightHandler pin a lw) = lw"
  by (simp add: wifiLightHandler_def)

lemma wifi_run_connected:
  "a \<noteq> [] \<Longrightarrow> wifi_run pin (replicate n a) LOW = (replicate n [DigitalWrite pin HIGH], LOW)"
  by (induction n) (simp_all add: wifiLightHandler_def)


section \<open>The claims\<close>

subsection \<open>Startup\<close>

text \<open>
  Claim C9. When the control file \<open>/var/run/asterisk.ctl\<close> is absent at startup, the
  program writes one error message to standard error and calls \<open>exit(-1)\<close>, a nonzero
  status, whatever the configuration and the pins: no iteration of the loop runs, no pin
  is configured, read or written, and no external command is executed.
\<close>

theorem control_file_absent_exits:
  "main False cfg tcu cos0 pc0 inps =
     ([Stderr ''Asterisk needs to be running first!  Exiting''], Exited (- 1))"
  by (simp add: main_def)

text \<open>
  Claim C10. Whatever \<open>networkStatusOn\<close> is, \<open>main\<close> with the control file present
  begins by making the network status pin an output and writing it \<open>LOW\<close>, the only
  pin write before the loop; an iteration in which the shutdown switch fires writes the
  pin \<open>HIGH\<close> and nothing else, first thing in the shutdown sequence, so that a run
  whose first iteration fires consists of the banner, the startup, the COS events of that
  iteration and the shutdown sequence, and the last pin write of every run that returns
  is that \<open>HIGH\<close>. The flag gates the periodic check only: in an iteration in which
  the switch does not fire, the pin writes are those of \<open>wifiLightHandler\<close> when the
  flag is on and the loop count is a multiple of the divisor, and none otherwise; with
  the flag off the pin writes of a whole run are the \<open>LOW\<close> of the startup and, when
  the run returns, the \<open>HIGH\<close> of the shutdown.
\<close>

theorem network_pin_outside_the_gate:
  "take 4 (startup cfg) =
     [WiringPiSetup, PinMode (ExtCOSPin cfg) INPUT,
      PinMode (networkStatusPin cfg) OUTPUT, DigitalWrite (networkStatusPin cfg) LOW] \<and>
   filter is_write (banner cfg @ startup cfg) = [DigitalWrite (networkStatusPin cfg) LOW] \<and>
   startup (cfg \<lparr> networkStatusOn := b \<rparr>) = startup cfg \<and>
   shutdown_events (cfg \<lparr> networkStatusOn := b \<rparr>) = shutdown_events cfg \<and>
   hd (shutdown_events cfg) = DigitalWrite (networkStatusPin cfg) HIGH \<and>
   fst (main True cfg tcu cos0 pc0 inps) =
     banner cfg @ startup cfg @
     fst (loop cfg (case TimeoutCountCOS cfg of None \<Rightarrow> tcu | Some c \<Rightarrow> c) inps
           \<lparr> LastCOSState = cos0, TimeoutCount = - 1, SDswitchPressedCount = pc0,
             loopCount = 0, lastWrite = LOW \<rparr>) \<and>
   filter is_write (fst (loop_body cfg tcc inp v)) =
     (if SDpin inp = LOW \<and> SDswitchActivateCount cfg < SDswitchPressedCount v + 1
      then [DigitalWrite (networkStatusPin cfg) HIGH]
      else if netCheckDivisor cfg \<noteq> 0 \<and>
              loopCount v mod ucast (netCheckDivisor cfg) = 0 \<and> networkStatusOn cfg
      then fst (wifiLightHandler (networkStatusPin cfg) (IPaddr inp) (lastWrite v))
      else []) \<and>
   (SDpin inp = LOW \<and> SDswitchActivateCount cfg < pc0 + 1 \<longrightarrow>
      main True cfg tcu cos0 pc0 (inp # inps) =
        (banner cfg @ startup cfg @
         fst (cos_step cfg (case TimeoutCountCOS cfg of None \<Rightarrow> tcu | Some c \<Rightarrow> c)
               (COSpin inp) (cos0, - 1)) @
         shutdown_events cfg, Returned 0)) \<and>
   (snd (main True cfg tcu cos0 pc0 inps) = Returned r \<longrightarrow>
      last (filter is_write (fst (main True cfg tcu cos0 pc0 inps))) =
        DigitalWrite (networkStatusPin cfg) HIGH) \<and>
   (\<not> networkStatusOn cfg \<longrightarrow>
      filter is_write (fst (main True cfg tcu cos0 pc0 inps)) =
        DigitalWrite (networkStatusPin cfg) LOW #
        (if snd (main True cfg tcu cos0 pc0 inps) = Returned 0
         then [DigitalWrite (networkStatusPin cfg) HIGH] else []))"
proof -
  let ?tcc = "case TimeoutCountCOS cfg of None \<Rightarrow> tcu | Some c \<Rightarrow> c"
  let ?v0 = "\<lparr> LastCOSState = cos0, TimeoutCount = - 1, SDswitchPressedCount = pc0,
                loopCount = 0, lastWrite = LOW \<rparr>"
  have 1: "take 4 (startup cfg) =
     [WiringPiSetup, PinMode (ExtCOSPin cfg) INPUT,
      PinMode (networkStatusPin cfg) OUTPUT, DigitalWrite (networkStatusPin cfg) LOW]"
    by (simp add: startup_def)
  have 2: "startup (cfg \<lparr> networkStatusOn := b \<rparr>) = startup cfg"
    by (simp add: startup_def)
  have 3: "shutdown_events (cfg \<lparr> networkStatusOn := b \<rparr>) = shutdown_events cfg"
    by (simp add: shutdown_events_def)
  have 4: "hd (shutdown_events cfg) = DigitalWrite (networkStatusPin cfg) HIGH"
    by (simp add: shutdown_events_def)
  have 5: "fst (main True cfg tcu cos0 pc0 inps) =
             banner cfg @ startup cfg @ fst (loop cfg ?tcc inps ?v0)"
    by (simp only: main_running fst_conv)
  have 6: "SDpin inp = LOW \<and> SDswitchActivateCount cfg < pc0 + 1 \<longrightarrow>
      main True cfg tcu cos0 pc0 (inp # inps) =
        (banner cfg @ startup cfg @ fst (cos_step cfg ?tcc (COSpin inp) (cos0, - 1)) @
         shutdown_events cfg, Returned 0)"
  proof
    assume "SDpin inp = LOW \<and> SDswitchActivateCount cfg < pc0 + 1"
    then have "loop_body cfg ?tcc inp ?v0 =
        (fst (cos_step cfg ?tcc (COSpin inp) (cos0, - 1)) @ shutdown_events cfg, Break)"
      using loop_body_break [of inp cfg ?v0 ?tcc] by simp
    then show "main True cfg tcu cos0 pc0 (inp # inps) =
        (banner cfg @ startup cfg @ fst (cos_step cfg ?tcc (COSpin inp) (cos0, - 1)) @
         shutdown_events cfg, Returned 0)"
      by (simp add: main_running loop_Cons_Break del: loop.simps(2))
  qed
  have 7: "snd (main True cfg tcu cos0 pc0 inps) = Returned r \<longrightarrow>
      last (filter is_write (fst (main True cfg tcu cos0 pc0 inps))) =
        DigitalWrite (networkStatusPin cfg) HIGH"
  proof
    assume "snd (main True cfg tcu cos0 pc0 inps) = Returned r"
    then have "snd (loop cfg ?tcc inps ?v0) = Returned r"
      by (simp only: main_running snd_conv)
    from loop_returned_last_write [OF this]
    show "last (filter is_write (fst (main True cfg tcu cos0 pc0 inps))) =
        DigitalWrite (networkStatusPin cfg) HIGH"
      by (simp add: 5 banner_def startup_def)
  qed
  have 8: "\<not> networkStatusOn cfg \<longrightarrow>
      filter is_write (fst (main True cfg tcu cos0 pc0 inps)) =
        DigitalWrite (networkStatusPin cfg) LOW #
        (if snd (main True cfg tcu cos0 pc0 inps) = Returned 0
         then [DigitalWrite (networkStatusPin cfg) HIGH] else [])"
  proof
    assume off: "\<not> networkStatusOn cfg"
    have "filter is_write (fst (main True cfg tcu cos0 pc0 inps)) =
            filter is_write (banner cfg @ startup cfg) @
            filter is_write (fst (loop cfg ?tcc inps ?v0))"
      by (simp only: 5 filter_append append_assoc)
    also have "\<dots> = DigitalWrite (networkStatusPin cfg) LOW #
        (if snd (loop cfg ?tcc inps ?v0) = Returned 0
         then [DigitalWrite (networkStatusPin cfg) HIGH] else [])"
      by (simp only: startup_writes loop_writes_off [OF off] append.simps)
    finally show "filter is_write (fst (main True cfg tcu cos0 pc0 inps)) =
        DigitalWrite (networkStatusPin cfg) LOW #
        (if snd (main True cfg tcu cos0 pc0 inps) = Returned 0
         then [DigitalWrite (networkStatusPin cfg) HIGH] else [])"
      by (simp only: main_running snd_conv)
  qed
  from 1 startup_writes [of cfg] 2 3 4 5 loop_body_writes [of cfg tcc inp v] 6 7 8
  show ?thesis by (intro conjI)
qed

text \<open>
  The theorem at the default configuration, where the flag is off: a first pressed sample
  on a press count of 30, the button released once and then held for 31 iterations, and
  five iterations with the button released.
\<close>

theorem network_pin_outside_the_gate_witness:
  "SDpin button_held = LOW \<and> SDswitchActivateCount default_config < 30 + 1 \<and>
   main True default_config 0 LOW 30 [button_held] =
     (banner default_config @ startup default_config @ shutdown_events default_config,
      Returned 0) \<and>
   snd (main True default_config 0 LOW 0 (button_released # replicate 31 button_held)) =
     Returned 0 \<and>
   last (filter is_write
          (fst (main True default_config 0 LOW 0 (button_released # replicate 31 button_held)))) =
     DigitalWrite 3 HIGH \<and>
   \<not> networkStatusOn default_config \<and>
   filter is_write
     (fst (main True default_config 0 LOW 0 (button_released # replicate 31 button_held))) =
     [DigitalWrite 3 LOW, DigitalWrite 3 HIGH] \<and>
   filter is_write (fst (main True default_config 0 LOW 0 (replicate 5 button_released))) =
     [DigitalWrite 3 LOW]"
proof -
  note t = network_pin_outside_the_gate
  let ?run = "button_released # replicate 31 button_held"
  have h1: "SDpin button_held = LOW \<and> SDswitchActivateCount default_config < 30 + 1"
    by (simp add: button_held_def default_pins)
  have ret: "snd (main True default_config 0 LOW 0 ?run) = Returned 0"
    by (simp only: held_31_main snd_conv)
  have off: "\<not> networkStatusOn default_config"
    by (rule default_pins)
  have c0: "fst (cos_step default_config 1500 (COSpin button_held) (LOW, - 1)) = []"
    by (simp add: cos_step_def button_held_def default_config_def)
  have a: "main True default_config 0 LOW 30 [button_held] =
     (banner default_config @ startup default_config @ shutdown_events default_config,
      Returned 0)"
  proof -
    from t [where cfg = default_config and tcu = 0 and ?cos0.0 = LOW and ?pc0.0 = 30
              and inp = button_held and inps = "[]" and b = True and tcc = 0
              and v = "idle_vars 0 0" and r = 0]
    have "SDpin button_held = LOW \<and> SDswitchActivateCount default_config < 30 + 1 \<longrightarrow>
      main True default_config 0 LOW 30 [button_held] =
        (banner default_config @ startup default_config @
         fst (cos_step default_config
               (case TimeoutCountCOS default_config of None \<Rightarrow> 0 | Some c \<Rightarrow> c)
               (COSpin button_held) (LOW, - 1)) @
         shutdown_events default_config, Returned 0)"
      by (elim conjE)
    with h1 show ?thesis by (simp add: TimeoutCountCOS_default c0)
  qed
  note t2 = t [where cfg = default_config and tcu = 0 and ?cos0.0 = LOW and ?pc0.0 = 0
              and inp = button_held and inps = ?run and b = True and tcc = 0
              and v = "idle_vars 0 0" and r = 0]
  have b: "last (filter is_write (fst (main True default_config 0 LOW 0 ?run))) =
             DigitalWrite 3 HIGH"
  proof -
    from t2 have "snd (main True default_config 0 LOW 0 ?run) = Returned 0 \<longrightarrow>
      last (filter is_write (fst (main True default_config 0 LOW 0 ?run))) =
        DigitalWrite (networkStatusPin default_config) HIGH"
      by (elim conjE)
    with ret show ?thesis by (simp only: default_pins)
  qed
  have c: "filter is_write (fst (main True default_config 0 LOW 0 ?run)) =
             [DigitalWrite 3 LOW, DigitalWrite 3 HIGH]"
  proof -
    from t2 have "\<not> networkStatusOn default_config \<longrightarrow>
      filter is_write (fst (main True default_config 0 LOW 0 ?run)) =
        DigitalWrite (networkStatusPin default_config) LOW #
        (if snd (main True default_config 0 LOW 0 ?run) = Returned 0
         then [DigitalWrite (networkStatusPin default_config) HIGH] else [])"
      by (elim conjE)
    with off ret show ?thesis by (simp only: default_pins if_True simp_thms)
  qed
  have run5: "snd (main True default_config 0 LOW 0 (replicate 5 button_released)) =
                Running (idle_vars 0 5)"
    using released_step [of 0 0] released_step [of 0 1] released_step [of 0 2]
      released_step [of 0 3] released_step [of 0 4]
    by (simp add: main_running TimeoutCountCOS_default idle_vars_def loop_Cons_Continue
        eval_nat_numeral del: loop.simps(2))
  have d: "filter is_write (fst (main True default_config 0 LOW 0 (replicate 5 button_released))) =
     [DigitalWrite 3 LOW]"
  proof -
    from t [where cfg = default_config and tcu = 0 and ?cos0.0 = LOW and ?pc0.0 = 0
              and inp = button_held and inps = "replicate 5 button_released" and b = True
              and tcc = 0 and v = "idle_vars 0 0" and r = 0]
    have "\<not> networkStatusOn default_config \<longrightarrow>
      filter is_write (fst (main True default_config 0 LOW 0 (replicate 5 button_released))) =
        DigitalWrite (networkStatusPin default_config) LOW #
        (if snd (main True default_config 0 LOW 0 (replicate 5 button_released)) = Returned 0
         then [DigitalWrite (networkStatusPin default_config) HIGH] else [])"
      by (elim conjE)
    with off show ?thesis by (simp add: run5 default_pins del: loop.simps)
  qed
  from h1 a ret b off c d show ?thesis by (intro conjI) simp_all
qed

subsection \<open>The shutdown switch\<close>

text \<open>
  Claim C1 says that with \<open>enable_shutdown_switch\<close> false the shutdown switch is never
  acted on. The loop never reads the flag. With every configuration value at its default
  (the flag false, an activate count of 30), the control file present and the COS pin
  low, a shutdown pin that reads high once and then low in 31 successive iterations runs
  the whole shutdown sequence in the 31st of them, power-off command included, and ends
  the loop through its \<open>break\<close>.
\<close>

theorem shutdown_switch_not_gated:
  "shutdownSwitchEnable default_config = False \<and>
   main True default_config tcu LOW 0 (button_released # replicate 31 button_held) =
     (banner default_config @ startup default_config @ Delay 100 # replicate 30 (Delay 100) @
      shutdown_events default_config, Returned 0) \<and>
   System ''/usr/bin/poweroff'' \<in> set (shutdown_events default_config)"
proof -
  have "replicate 31 button_held = replicate (30 + 1) button_held"
    by simp
  also have "\<dots> = replicate 30 button_held @ replicate 1 button_held"
    by (simp only: replicate_add)
  finally have r: "replicate 31 button_held = replicate 30 button_held @ [button_held]"
    by simp
  have "loop default_config 1500 (replicate 31 button_held) (idle_vars 0 1) =
          (replicate 30 (Delay 100) @ shutdown_events default_config, Returned 0)"
    unfolding r using held_run [of 0 30 "[button_held]" 1] held_fire [of 31]
    by (simp add: loop_Cons_Break del: loop.simps(2))
  then have "loop default_config 1500 (button_released # replicate 31 button_held) (idle_vars 0 0) =
          (Delay 100 # replicate 30 (Delay 100) @ shutdown_events default_config, Returned 0)"
    using released_step [of 0 0]
    by (simp add: loop_Cons_Continue del: loop.simps(2) replicate_Suc)
  moreover have "shutdownSwitchEnable default_config = False"
    by (simp add: default_config_def)
  moreover have "System ''/usr/bin/poweroff'' \<in> set (shutdown_events default_config)"
    by (simp add: shutdown_events_def)
  ultimately show ?thesis
    by (simp add: main_def TimeoutCountCOS_default idle_vars_def del: loop.simps(2))
qed

text \<open>
  Claim C7 says that the press count is set to 0 before the first sample, so that after
  k pressed samples from process start it is k. \<open>SDswitchPressedCount\<close> has no
  initialiser. When the variable happens to hold 5 at the start of the loop, one pressed
  sample leaves 6 in it; when it holds 30, the first pressed sample shuts the machine down.
\<close>

theorem pressed_count_not_initialised:
  "main True default_config tcu LOW 5 [button_held] =
     (banner default_config @ startup default_config @ [Delay 100], Running (idle_vars 6 1)) \<and>
   main True default_config tcu LOW 30 [button_held] =
     (banner default_config @ startup default_config @ shutdown_events default_config, Returned 0)"
  using held_step [of 5 0] held_fire [of 0]
  by (simp add: main_def TimeoutCountCOS_default idle_vars_def loop_Cons_Continue loop_Cons_Break
      del: loop.simps(2))

subsection \<open>The COS detector\<close>

text \<open>
  Claim C2 says that after the timeout has unkeyed, no further timeout unkey happens
  until a rising edge, however long the pin stays high. After the timeout the countdown
  is set to \<open>-1\<close>, which is 65535 in the 16-bit variable, and it goes on being
  decremented while the pin is high. With the default configuration and the pin high
  from iteration 0 on, the timeout unkeys in iteration 1501 and again in iteration 67037,
  with no edge in between.
\<close>

theorem timeout_fires_again_after_wrap:
  "TimeoutCountCOS default_config = Some 1500 \<and>
   cos_run default_config 1500 (replicate 67038 HIGH) (LOW, - 1) =
     ([System KeyCmd] # replicate 1500 [] @
      [[Stdout ''COS Timeout'', System UnkeyCmd]] @ replicate 65535 [] @
      [[Stdout ''COS Timeout'', System UnkeyCmd]], (HIGH, - 1))"
  using held_high_trace [OF COStimeoutEnable_default, of "- 1"] TimeoutCountCOS_default
  by simp

text \<open>
  Claim C3 says that a falling edge disarms the countdown, so that no timeout unkey can
  come after it until a rising edge. The falling-edge branch does not assign the
  countdown, and the branch that tests it for 0 does not test the pin. With the default
  configuration, the pin high for 1501 iterations and then low, the falling edge in
  iteration 1501 finds the countdown at 0 and unkeys, and iteration 1502, with the pin
  low and no rising edge since, prints the timeout message and unkeys again.
\<close>

theorem timeout_unkey_with_pin_low:
  "TimeoutCountCOS default_config = Some 1500 \<and>
   cos_run default_config 1500 (replicate 1501 HIGH @ [LOW, LOW]) (LOW, - 1) =
     ([System KeyCmd] # replicate 1500 [] @
      [[System UnkeyCmd], [Stdout ''COS Timeout'', System UnkeyCmd]], (LOW, - 1))"
  using cos_run_falling_at_zero [OF COStimeoutEnable_default, of 1500 "- 1"]
    TimeoutCountCOS_default
  by simp

text \<open>
  Claim C4, as amended. With a loop delay of 100 ms, a timeout of 150000 ms and the
  timeout enabled, the timeout count is 1500; when the pin goes high in iteration 0 and
  stays high, the key command is issued in iteration 0, the timeout unkey in iteration
  1501, which is the iteration after the one that brings the countdown to 0, and nothing
  is issued in any other iteration up to iteration 67036.
\<close>

theorem held_high_schedule:
  assumes "LoopDelayMs cfg = 100" "TimeoutMs cfg = 150000" "COStimeoutEnable cfg"
  shows "TimeoutCountCOS cfg = Some 1500 \<and>
         (\<forall>n t. t < n \<and> t \<le> 67036 \<longrightarrow>
            fst (cos_run cfg 1500 (replicate n HIGH) (LOW, - 1)) ! t =
              (if t = 0 then [System KeyCmd]
               else if t = 1501 then [Stdout ''COS Timeout'', System UnkeyCmd]
               else []))"
  using assms by (simp add: tcc_default held_high_nth)

text \<open>
  The theorem at the default configuration, in iterations 0, 1500 and 1501.
\<close>

theorem held_high_schedule_witness:
  "LoopDelayMs default_config = 100 \<and> TimeoutMs default_config = 150000 \<and>
   COStimeoutEnable default_config \<and> TimeoutCountCOS default_config = Some 1500 \<and>
   (1501::nat) < 1502 \<and> (1501::nat) \<le> 67036 \<and>
   fst (cos_run default_config 1500 (replicate 1502 HIGH) (LOW, - 1)) ! 1501 =
     [Stdout ''COS Timeout'', System UnkeyCmd] \<and>
   fst (cos_run default_config 1500 (replicate 1502 HIGH) (LOW, - 1)) ! 0 = [System KeyCmd] \<and>
   fst (cos_run default_config 1500 (replicate 1502 HIGH) (LOW, - 1)) ! 1500 = []"
proof -
  have h: "LoopDelayMs default_config = 100" "TimeoutMs default_config = 150000"
    "COStimeoutEnable default_config"
    by (simp_all add: default_config_def)
  from held_high_schedule [OF h] have
    a: "TimeoutCountCOS default_config = Some 1500" and
    b: "\<And>n t. t < n \<Longrightarrow> t \<le> 67036 \<Longrightarrow>
          fst (cos_run default_config 1500 (replicate n HIGH) (LOW, - 1)) ! t =
              (if t = 0 then [System KeyCmd]
               else if t = 1501 then [Stdout ''COS Timeout'', System UnkeyCmd]
               else [])"
    by blast+
  show ?thesis using h a b [of 1501 1502] b [of 0 1502] b [of 1500 1502] by simp
qed

text \<open>
  Claim C4 as stated fails: iteration 1500 issues nothing, the unkey comes in iteration
  1501; and iteration 67037, still with no edge, issues the timeout unkey a second time.
\<close>

theorem no_unkey_at_tick_1500:
  "fst (cos_run default_config 1500 (replicate 1502 HIGH) (LOW, - 1)) ! 1500 = [] \<and>
   fst (cos_run default_config 1500 (replicate 1502 HIGH) (LOW, - 1)) ! 1501 =
     [Stdout ''COS Timeout'', System UnkeyCmd] \<and>
   fst (cos_run default_config 1500 (replicate 67038 HIGH) (LOW, - 1)) ! 67037 =
     [Stdout ''COS Timeout'', System UnkeyCmd]"
proof -
  have "fst (cos_run default_config 1500 (replicate 67038 HIGH) (LOW, - 1)) ! 67037 =
          ([System KeyCmd] # replicate 1500 [] @
           [[Stdout ''COS Timeout'', System UnkeyCmd]] @ replicate 65535 [] @
           [[Stdout ''COS Timeout'', System UnkeyCmd]]) ! 67037"
    by (simp only: held_high_trace [OF COStimeoutEnable_default] fst_conv)
  also have "\<dots> = [Stdout ''COS Timeout'', System UnkeyCmd]"
    by (simp add: nth_Cons' nth_append)
  finally show ?thesis
    using held_high_nth [OF COStimeoutEnable_default, of 1500 1502 "- 1"]
          held_high_nth [OF COStimeoutEnable_default, of 1501 1502 "- 1"]
    by simp
qed

text \<open>
  Claim C8. With \<open>COStimeoutEnable\<close> false, for every sequence of samples and every
  starting state of the detector, an iteration that issues the unkey command is one whose
  sample is low while the level before it (the previous sample, or \<open>LastCOSState\<close> for
  the first iteration) was high: a falling edge.
\<close>

theorem no_timeout_unkey_when_disabled:
  assumes "\<not> COStimeoutEnable cfg" "i < length xs"
    "System UnkeyCmd \<in> set (fst (cos_run cfg tcc xs st) ! i)"
  shows "xs ! i = LOW \<and> (if i = 0 then fst st else xs ! (i - 1)) = HIGH"
  using assms(2,3)
proof (induction xs arbitrary: i st)
  case Nil
  then show ?case by simp
next
  case (Cons x xs)
  show ?case
  proof (cases i)
    case 0
    with Cons.prems cos_step_unkey_disabled [OF assms(1), of tcc x st]
    show ?thesis by (simp add: split_beta)
  next
    case (Suc j)
    with Cons.prems have "j < length xs"
      "System UnkeyCmd \<in> set (fst (cos_run cfg tcc xs (snd (cos_step cfg tcc x st))) ! j)"
      by (simp_all add: split_beta)
    from Cons.IH [OF this]
    show ?thesis using Suc by (cases j) (simp_all add: cos_step_tracks_level)
  qed
qed

text \<open>
  The theorem on the samples high, low, with the timeout disabled.
\<close>

theorem no_timeout_unkey_when_disabled_witness:
  "\<not> COStimeoutEnable (default_config \<lparr> COStimeoutEnable := False \<rparr>) \<and>
   (1::nat) < length [HIGH, LOW] \<and>
   System UnkeyCmd \<in>
     set (fst (cos_run (default_config \<lparr> COStimeoutEnable := False \<rparr>) 1500 [HIGH, LOW] (LOW, - 1)) ! 1) \<and>
   [HIGH, LOW] ! 1 = LOW \<and> [HIGH, LOW] ! (1 - 1) = HIGH"
proof -
  have a: "\<not> COStimeoutEnable (default_config \<lparr> COStimeoutEnable := False \<rparr>)" by simp
  have b: "(1::nat) < length [HIGH, LOW]" by simp
  have c: "System UnkeyCmd \<in>
     set (fst (cos_run (default_config \<lparr> COStimeoutEnable := False \<rparr>) 1500 [HIGH, LOW] (LOW, - 1)) ! 1)"
    by (simp add: cos_step_rising cos_step_falling)
  from no_timeout_unkey_when_disabled [OF a b c] a b c show ?thesis by simp
qed

subsection \<open>The network light\<close>

text \<open>
  Claim C5, as amended. Whenever the handler writes a pin, it writes the network status
  pin, \<open>LOW\<close> when the address string is empty and \<open>HIGH\<close> when it is not.
\<close>

theorem light_level_follows_address:
  assumes "DigitalWrite p l \<in> set (fst (wifiLightHandler pin a lw))"
  shows "p = pin \<and> l = (if a = [] then LOW else HIGH)"
  using assms by (auto simp: wifiLightHandler_def split: if_splits)

text \<open>
  The theorem at the address 192.168.1.5.
\<close>

theorem light_level_follows_address_witness:
  "DigitalWrite 3 HIGH \<in> set (fst (wifiLightHandler 3 ''192.168.1.5'' LOW)) \<and>
   (3 :: 16 word) = 3 \<and> HIGH = (if ''192.168.1.5'' = [] then LOW else HIGH)"
proof -
  have a: "DigitalWrite 3 HIGH \<in> set (fst (wifiLightHandler 3 ''192.168.1.5'' LOW))"
    by (simp add: wifiLightHandler_def)
  from light_level_follows_address [OF a] a show ?thesis by simp
qed

text \<open>
  Claim C5 as stated fails: on its first call, with an address present, the handler
  writes the pin \<open>HIGH\<close>.
\<close>

theorem light_written_high_when_connected:
  "wifiLightHandler 3 ''192.168.1.5'' LOW = ([DigitalWrite 3 HIGH], LOW)"
  by (simp add: wifiLightHandler_def)

text \<open>
  Claim C6 says that of several successive checks with the same connectivity at most the
  first writes the pin. Two successive checks that both find the address 192.168.1.5
  both write the pin \<open>HIGH\<close>.
\<close>

theorem light_rewritten_every_check:
  "wifi_run 3 [''192.168.1.5'', ''192.168.1.5''] LOW =
     ([[DigitalWrite 3 HIGH], [DigitalWrite 3 HIGH]], LOW)"
  by (simp add: wifiLightHandler_def)

end
